theory Spec2Isabelle
  imports Main
begin

section \<open>The introspection bridge script \<^verbatim>\<open>do_introspect.ts\<close>\<close>

text \<open>
  The script runs once in a fresh runtime in which the host has placed four globals:
  the strings \<^verbatim>\<open>sdl\<close> and \<^verbatim>\<open>queries\<close>, the capability
  \<^verbatim>\<open>bridge.batchIntrospect\<close> and the callback \<^verbatim>\<open>done\<close>.
  \<^verbatim>\<open>
  if (!sdl) {
    done({ Err: [{ message: 'Error in JS-Rust-land: SDL is empty.' }] });
  }

  try {
    const introspected = bridge.batchIntrospect(sdl, queries);
    done({ Ok: introspected });
  } catch (err) {
    done({ Err: err });
  }
  \<close>
\<close>

subsection \<open>Values\<close>

text \<open>
  The values the script handles without looking inside: what the capability returns, what
  it throws, and the object literals the script builds. Objects are association lists
  from property names to values.
\<close>

datatype js_value =
    JUndefined
  | JNull
  | JBool bool
  | JStr string
  | JArr "js_value list"
  | JObj "(string \<times> js_value) list"

text \<open>
  \<^verbatim>\<open>OperationResult\<close>: the object handed to \<^verbatim>\<open>done\<close> has either
  the property \<^verbatim>\<open>Ok\<close> or the property \<^verbatim>\<open>Err\<close>; the script stores under
  it whatever value it holds, so both carry an arbitrary value.
\<close>

datatype operation_result = Ok js_value | Err js_value

text \<open>
  \<^verbatim>\<open>bridge.batchIntrospect\<close> is declared, not defined, in the script. A call either
  returns a value (\<open>Inr\<close>) or throws one (\<open>Inl\<close>); JavaScript can throw any value.
\<close>

type_synonym capability = "string \<Rightarrow> string list \<Rightarrow> js_value + js_value"

subsection \<open>The host and the statements of the script\<close>

text \<open>
  What the host observes of a run: the results passed to \<^verbatim>\<open>done\<close>, oldest first, and
  the argument pairs with which \<^verbatim>\<open>bridge.batchIntrospect\<close> was called. The callback
  \<^verbatim>\<open>done\<close> is declared \<^verbatim>\<open>(operationResult: OperationResult) => void\<close>: it is
  the channel to the host, it records its argument and returns.
\<close>

record host =
  delivered :: "operation_result list"
  invoked :: "(string \<times> string list) list"

text \<open>
  A piece of script transforms the host and either completes with a value (\<open>Inr\<close>) or
  leaves an exception pending (\<open>Inl\<close>).
\<close>

type_synonym 'a js = "host \<Rightarrow> (js_value + 'a) \<times> host"

definition done_fn :: "operation_result \<Rightarrow> unit js" where
  "done_fn operationResult h = (Inr (), h\<lparr>delivered := delivered h @ [operationResult]\<rparr>)"

definition call_batchIntrospect :: "capability \<Rightarrow> string \<Rightarrow> string list \<Rightarrow> js_value js" where
  "call_batchIntrospect cap sdl queries h =
     (cap sdl queries, h\<lparr>invoked := invoked h @ [(sdl, queries)]\<rparr>)"

definition js_skip :: "unit js" where
  "js_skip h = (Inr (), h)"

text \<open>\<^verbatim>\<open>s1; s2\<close>: a pending exception of \<^verbatim>\<open>s1\<close> skips \<^verbatim>\<open>s2\<close>.\<close>

definition js_seq :: "unit js \<Rightarrow> 'a js \<Rightarrow> 'a js" where
  "js_seq s1 s2 h = (case s1 h of (Inl e, h') \<Rightarrow> (Inl e, h') | (Inr _, h') \<Rightarrow> s2 h')"

text \<open>\<^verbatim>\<open>const x = e; s\<close>: a pending exception of \<^verbatim>\<open>e\<close> skips \<^verbatim>\<open>s\<close>.\<close>

definition js_let :: "'a js \<Rightarrow> ('a \<Rightarrow> 'b js) \<Rightarrow> 'b js" where
  "js_let e s h = (case e h of (Inl ex, h') \<Rightarrow> (Inl ex, h') | (Inr x, h') \<Rightarrow> s x h')"

text \<open>\<^verbatim>\<open>try { body } catch (err) { handler }\<close>.\<close>

definition try_catch :: "'a js \<Rightarrow> (js_value \<Rightarrow> 'a js) \<Rightarrow> 'a js" where
  "try_catch body handler h =
     (case body h of (Inl err, h') \<Rightarrow> handler err h' | (Inr x, h') \<Rightarrow> (Inr x, h'))"

subsection \<open>The script\<close>

text \<open>\<^verbatim>\<open>[{ message: 'Error in JS-Rust-land: SDL is empty.' }]\<close>\<close>

definition empty_sdl_errors :: js_value where
  "empty_sdl_errors = JArr [JObj [(''message'', JStr ''Error in JS-Rust-land: SDL is empty.'')]]"

text \<open>
  \<^verbatim>\<open>sdl\<close> is declared a string, and the only string for which \<^verbatim>\<open>!sdl\<close> holds is
  the empty one. The \<^verbatim>\<open>if\<close> has no \<^verbatim>\<open>else\<close> and nothing leaves the script
  after it: the \<^verbatim>\<open>try\<close> statement follows in sequence.
\<close>

definition do_introspect :: "capability \<Rightarrow> string \<Rightarrow> string list \<Rightarrow> unit js" where
  "do_introspect cap sdl queries =
     js_seq
       (if sdl = [] then done_fn (Err empty_sdl_errors) else js_skip)
       (try_catch
          (js_let (call_batchIntrospect cap sdl queries)
             (\<lambda>introspected. done_fn (Ok introspected)))
          (\<lambda>err. done_fn (Err err)))"

text \<open>A run starts with nothing delivered and nothing invoked.\<close>

definition run :: "capability \<Rightarrow> string \<Rightarrow> string list \<Rightarrow> (js_value + unit) \<times> host" where
  "run cap sdl queries = do_introspect cap sdl queries \<lparr>delivered = [], invoked = []\<rparr>"

text \<open>How the run ended (\<open>Inl\<close>: an exception nobody caught) and what the host saw.\<close>

definition completion :: "(js_value + unit) \<times> host \<Rightarrow> js_value + unit" where
  "completion r = fst r"

definition outcomes :: "(js_value + unit) \<times> host \<Rightarrow> operation_result list" where
  "outcomes r = delivered (snd r)"

definition invocations :: "(js_value + unit) \<times> host \<Rightarrow> (string \<times> string list) list" where
  "invocations r = invoked (snd r)"

subsection \<open>A capability with state of its own\<close>





section \<open>The batch driver behind the capability\<close>

text \<open>
  Modelled from the spec: \<^verbatim>\<open>batchIntrospect\<close>, the function behind
  \<^verbatim>\<open>bridge.batchIntrospect\<close>, is imported by the script from \<^verbatim>\<open>'.'\<close> and its
  code is not among the sources. The spec (4.3, Batch Driver) describes it: the SDL is
  parsed once; if parsing fails the batch fails with a single error record and no query is
  evaluated; otherwise the queries are evaluated in input order against the one schema;
  the first failing evaluation fails the whole batch and the queries after it are not
  evaluated; on full success the results are returned in input order. The spec (6) has the
  capability throw on failure. The schema parser (4.1) and the evaluator of one query
  (4.2) are parameters: \<open>Inl\<close> is their error record.
\<close>

datatype engine_event = Parsed string | Evaluated string

fun evaluate_all ::
  "('s \<Rightarrow> string \<Rightarrow> js_value + js_value) \<Rightarrow> 's \<Rightarrow> string list \<Rightarrow>
     engine_event list \<times> (js_value + js_value list)" where
  "evaluate_all evaluate schema [] = ([], Inr [])"
| "evaluate_all evaluate schema (q # qs) =
     (case evaluate schema q of
        Inl e \<Rightarrow> ([Evaluated q], Inl e)
      | Inr r \<Rightarrow>
          (case evaluate_all evaluate schema qs of
             (work, Inl e) \<Rightarrow> (Evaluated q # work, Inl e)
           | (work, Inr rs) \<Rightarrow> (Evaluated q # work, Inr (r # rs))))"

definition run_batch ::
  "(string \<Rightarrow> js_value + 's) \<Rightarrow> ('s \<Rightarrow> string \<Rightarrow> js_value + js_value) \<Rightarrow>
     string \<Rightarrow> string list \<Rightarrow> engine_event list \<times> (js_value + js_value)" where
  "run_batch parse evaluate sdl queries =
     (case parse sdl of
        Inl parse_error \<Rightarrow> ([Parsed sdl], Inl (JArr [parse_error]))
      | Inr schema \<Rightarrow>
          (case evaluate_all evaluate schema queries of
             (work, Inl e) \<Rightarrow> (Parsed sdl # work, Inl (JArr [e]))
           | (work, Inr rs) \<Rightarrow> (Parsed sdl # work, Inr (JArr rs))))"

text \<open>The capability proper, and the work the engine did to answer it.\<close>

definition batchIntrospect ::
  "(string \<Rightarrow> js_value + 's) \<Rightarrow> ('s \<Rightarrow> string \<Rightarrow> js_value + js_value) \<Rightarrow> capability" where
  "batchIntrospect parse evaluate sdl queries = snd (run_batch parse evaluate sdl queries)"

definition engine_work ::
  "(string \<Rightarrow> js_value + 's) \<Rightarrow> ('s \<Rightarrow> string \<Rightarrow> js_value + js_value) \<Rightarrow>
     string \<Rightarrow> string list \<Rightarrow> engine_event list" where
  "engine_work parse evaluate sdl queries = fst (run_batch parse evaluate sdl queries)"

section \<open>Vocabulary of the specification\<close>

text \<open>An error record: an object with a \<^verbatim>\<open>message\<close> property that is a string.\<close>

definition has_message :: "js_value \<Rightarrow> bool" where
  "has_message v =
     (case v of
        JObj props \<Rightarrow> (case map_of props ''message'' of Some (JStr m) \<Rightarrow> True | _ \<Rightarrow> False)
      | _ \<Rightarrow> False)"

text \<open>A non-empty array of error records.\<close>

definition error_records :: "js_value \<Rightarrow> bool" where
  "error_records v =
     (case v of JArr recs \<Rightarrow> recs \<noteq> [] \<and> list_all has_message recs | _ \<Rightarrow> False)"

text \<open>Space, tab, line feed, carriage return.\<close>

definition whitespace_char :: "char \<Rightarrow> bool" where
  "whitespace_char c = (c = CHR '' '' \<or> c = CHR 0x09 \<or> c = CHR 0x0A \<or> c = CHR 0x0D)"

definition whitespace_only :: "string \<Rightarrow> bool" where
  "whitespace_only s = list_all whitespace_char s"

section \<open>Sample capabilities and engines\<close>

text \<open>A capability that returns normally on every input.\<close>

definition echo_engine :: capability where
  "echo_engine sdl queries = Inr (JArr (map JStr queries))"

text \<open>A capability that throws an error object (an internal fault), not an array.\<close>

definition faulty_engine :: capability where
  "faulty_engine sdl queries = Inl (JObj [(''message'', JStr ''internal fault'')])"

text \<open>A capability that throws an array of one error record on the empty SDL.\<close>

definition strict_engine :: capability where
  "strict_engine sdl queries =
     (if sdl = [] then Inl (JArr [JObj [(''message'', JStr ''Syntax Error: Unexpected <EOF>.'')]])
      else Inr (JArr (map JStr queries)))"


text \<open>
  A parser that knows one document and an evaluator that knows two queries; a schema is
  represented by the name of its query type.
\<close>

definition sample_sdl :: string where
  "sample_sdl = ''type Query { hello: String }''"

definition query_type_query :: string where
  "query_type_query = ''{ __schema { queryType { name } } }''"

definition mutation_type_query :: string where
  "mutation_type_query = ''{ __schema { mutationType { name } } }''"

definition syntax_error :: js_value where
  "syntax_error = JObj [(''message'', JStr ''Syntax Error'')]"

definition sample_parse :: "string \<Rightarrow> js_value + string" where
  "sample_parse sdl = (if sdl = sample_sdl then Inr ''Query'' else Inl syntax_error)"

definition sample_evaluate :: "string \<Rightarrow> string \<Rightarrow> js_value + js_value" where
  "sample_evaluate schema query =
     (if query = query_type_query
      then Inr (JObj [(''__schema'', JObj [(''queryType'', JObj [(''name'', JStr schema)])])])
      else if query = mutation_type_query
      then Inr (JObj [(''__schema'', JObj [(''mutationType'', JNull)])])
      else Inl syntax_error)"

section \<open>The shape of a run\<close>

lemma run_shape:
  "run cap sdl queries =
     (Inr (),
      \<lparr>delivered =
         (if sdl = [] then [Err empty_sdl_errors] else []) @
         [case cap sdl queries of Inl err \<Rightarrow> Err err | Inr introspected \<Rightarrow> Ok introspected],
       invoked = [(sdl, queries)]\<rparr>)"
proof (cases "cap sdl queries")
  case (Inl err)
  then show ?thesis
    by (cases "sdl = []")
       (simp_all add: run_def do_introspect_def js_seq_def js_let_def try_catch_def
          call_batchIntrospect_def done_fn_def js_skip_def)
next
  case (Inr introspected)
  then show ?thesis
    by (cases "sdl = []")
       (simp_all add: run_def do_introspect_def js_seq_def js_let_def try_catch_def
          call_batchIntrospect_def done_fn_def js_skip_def)
qed

lemma run_completion: "completion (run cap sdl queries) = Inr ()"
  by (simp add: run_shape completion_def)

lemma run_outcomes:
  "outcomes (run cap sdl queries) =
     (if sdl = [] then [Err empty_sdl_errors] else []) @
     [case cap sdl queries of Inl err \<Rightarrow> Err err | Inr introspected \<Rightarrow> Ok introspected]"
  by (simp add: run_shape outcomes_def)

lemma run_invocations: "invocations (run cap sdl queries) = [(sdl, queries)]"
  by (simp add: run_shape invocations_def)

section \<open>The batch driver\<close>

lemma evaluate_all_success:
  "snd (evaluate_all evaluate schema qs) = Inr rs \<Longrightarrow>
     length rs = length qs \<and> (\<forall>i<length qs. evaluate schema (qs ! i) = Inr (rs ! i))"
proof (induction qs arbitrary: rs)
  case Nil
  then show ?case by simp
next
  case (Cons q qs)
  from Cons.prems obtain r rs' where r: "evaluate schema q = Inr r"
    and rs': "snd (evaluate_all evaluate schema qs) = Inr rs'" and rs: "rs = r # rs'"
    by (auto split: sum.splits prod.splits)
  from Cons.IH [OF rs'] have ih: "length rs' = length qs"
    "\<forall>i<length qs. evaluate schema (qs ! i) = Inr (rs' ! i)" by simp_all
  show ?case
  proof (intro conjI allI impI)
    show "length rs = length (q # qs)" using ih(1) rs by simp
  next
    fix i assume "i < length (q # qs)"
    then show "evaluate schema ((q # qs) ! i) = Inr (rs ! i)"
      using r rs ih(2) by (cases i) simp_all
  qed
qed

lemma evaluate_all_first_failure:
  "k < length qs \<Longrightarrow> evaluate schema (qs ! k) = Inl e \<Longrightarrow>
   \<forall>i<k. \<exists>r. evaluate schema (qs ! i) = Inr r \<Longrightarrow>
   snd (evaluate_all evaluate schema qs) = Inl e"
proof (induction qs arbitrary: k)
  case Nil
  then show ?case by simp
next
  case (Cons q qs)
  show ?case
  proof (cases k)
    case 0
    with Cons.prems show ?thesis by simp
  next
    case (Suc j)
    with Cons.prems obtain r where r: "evaluate schema q = Inr r" by fastforce
    have "snd (evaluate_all evaluate schema qs) = Inl e"
    proof (rule Cons.IH)
      show "j < length qs" using Cons.prems(1) Suc by simp
      show "evaluate schema (qs ! j) = Inl e" using Cons.prems(2) Suc by simp
      show "\<forall>i<j. \<exists>r. evaluate schema (qs ! i) = Inr r"
      proof (intro allI impI)
        fix i assume "i < j"
        then have "Suc i < k" using Suc by simp
        with Cons.prems(3) have "\<exists>r. evaluate schema ((q # qs) ! Suc i) = Inr r" by blast
        then show "\<exists>r. evaluate schema (qs ! i) = Inr r" by simp
      qed
    qed
    then show ?thesis using r by (auto split: prod.splits sum.splits)
  qed
qed

lemma evaluate_all_work_on_failure:
  "k < length qs \<Longrightarrow> evaluate schema (qs ! k) = Inl e \<Longrightarrow>
   \<forall>i<k. \<exists>r. evaluate schema (qs ! i) = Inr r \<Longrightarrow>
   fst (evaluate_all evaluate schema qs) = map Evaluated (take (Suc k) qs)"
proof (induction qs arbitrary: k)
  case Nil
  then show ?case by simp
next
  case (Cons q qs)
  show ?case
  proof (cases k)
    case 0
    with Cons.prems show ?thesis by simp
  next
    case (Suc j)
    with Cons.prems obtain r where r: "evaluate schema q = Inr r" by fastforce
    have "fst (evaluate_all evaluate schema qs) = map Evaluated (take (Suc j) qs)"
    proof (rule Cons.IH)
      show "j < length qs" using Cons.prems(1) Suc by simp
      show "evaluate schema (qs ! j) = Inl e" using Cons.prems(2) Suc by simp
      show "\<forall>i<j. \<exists>r. evaluate schema (qs ! i) = Inr r"
      proof (intro allI impI)
        fix i assume "i < j"
        then have "Suc i < k" using Suc by simp
        with Cons.prems(3) have "\<exists>r. evaluate schema ((q # qs) ! Suc i) = Inr r" by blast
        then show "\<exists>r. evaluate schema (qs ! i) = Inr r" by simp
      qed
    qed
    then show ?thesis using r Suc by (auto split: prod.splits sum.splits)
  qed
qed

lemma batchIntrospect_parse_failure:
  "parse sdl = Inl parse_error \<Longrightarrow>
     batchIntrospect parse evaluate sdl queries = Inl (JArr [parse_error])"
  by (simp add: batchIntrospect_def run_batch_def)

lemma engine_work_parse_failure:
  "parse sdl = Inl parse_error \<Longrightarrow> engine_work parse evaluate sdl queries = [Parsed sdl]"
  by (simp add: engine_work_def run_batch_def)

lemma batchIntrospect_first_failure:
  assumes "parse sdl = Inr schema" and "k < length queries"
    and "evaluate schema (queries ! k) = Inl e"
    and "\<forall>i<k. \<exists>r. evaluate schema (queries ! i) = Inr r"
  shows "batchIntrospect parse evaluate sdl queries = Inl (JArr [e])"
proof -
  have "snd (evaluate_all evaluate schema queries) = Inl e"
    using assms(2-4) by (rule evaluate_all_first_failure)
  then show ?thesis
    using assms(1) by (auto simp: batchIntrospect_def run_batch_def split: prod.splits)
qed

lemma batchIntrospect_returns:
  assumes "batchIntrospect parse evaluate sdl queries = Inr v"
  shows "\<exists>schema results. parse sdl = Inr schema \<and> v = JArr results \<and>
           length results = length queries \<and>
           (\<forall>i<length queries. evaluate schema (queries ! i) = Inr (results ! i))"
proof (cases "parse sdl")
  case (Inl parse_error)
  with assms show ?thesis by (simp add: batchIntrospect_def run_batch_def)
next
  case (Inr schema)
  with assms obtain results where res: "snd (evaluate_all evaluate schema queries) = Inr results"
    and v: "v = JArr results"
    by (auto simp: batchIntrospect_def run_batch_def split: prod.splits sum.splits)
  from evaluate_all_success [OF res] Inr v show ?thesis by blast
qed

section \<open>The claims\<close>

text \<open>
  With the empty SDL and a capability that returns normally, the first result handed to
  \<^verbatim>\<open>done\<close> carries the message \<^verbatim>\<open>Error in JS-Rust-land: SDL is empty.\<close>, not
  \<^verbatim>\<open>SDL is empty.\<close>; a second result follows it, and the capability has been invoked, with
  the empty SDL.
\<close>

theorem empty_sdl_claimed_outcome_counterexample:
  "outcomes (run echo_engine '''' []) =
     [Err (JArr [JObj [(''message'', JStr ''Error in JS-Rust-land: SDL is empty.'')]]),
      Ok (JArr [])] \<and>
   outcomes (run echo_engine '''' []) \<noteq> [Err (JArr [JObj [(''message'', JStr ''SDL is empty.'')]])] \<and>
   invocations (run echo_engine '''' []) = [('''', [])]"
  by (simp add: run_outcomes run_invocations echo_engine_def empty_sdl_errors_def)

text \<open>
  Claim C1, as amended: for every list of queries and every capability, a run with
  \<^verbatim>\<open>sdl = ""\<close> hands to \<^verbatim>\<open>done\<close>, as its first result,
  \<^verbatim>\<open>{ Err: [{ message: 'Error in JS-Rust-land: SDL is empty.' }] }\<close>.
\<close>

theorem empty_sdl_first_outcome:
  "take 1 (outcomes (run cap '''' queries)) = [Err empty_sdl_errors]"
  by (simp add: run_outcomes)

text \<open>
  Claim C2: for every input, if the capability throws \<open>err\<close>, the exception is caught:
  the script completes normally (no exception is left pending) and the result built from
  the call and handed to \<^verbatim>\<open>done\<close> is the failure branch \<^verbatim>\<open>{ Err: err }\<close>. With the
  empty SDL the result of the precondition check precedes it.
\<close>

theorem capability_exception_caught:
  "cap sdl queries = Inl err \<Longrightarrow>
     completion (run cap sdl queries) = Inr () \<and>
     outcomes (run cap sdl queries) =
       (if sdl = [] then [Err empty_sdl_errors] else []) @ [Err err]"
  by (simp add: run_completion run_outcomes)

theorem capability_exception_caught_witness:
  "faulty_engine sample_sdl [query_type_query] = Inl (JObj [(''message'', JStr ''internal fault'')]) \<and>
   completion (run faulty_engine sample_sdl [query_type_query]) = Inr () \<and>
   outcomes (run faulty_engine sample_sdl [query_type_query]) =
     [Err (JObj [(''message'', JStr ''internal fault'')])]"
proof -
  have h: "faulty_engine sample_sdl [query_type_query] = Inl (JObj [(''message'', JStr ''internal fault'')])"
    by (simp add: faulty_engine_def)
  have ne: "sample_sdl \<noteq> []" by (simp add: sample_sdl_def)
  from capability_exception_caught [where cap = faulty_engine and sdl = sample_sdl
      and queries = "[query_type_query]", OF h] h ne show ?thesis by simp
qed

text \<open>
  Claim C3: with the batch driver of the specification as the capability, if the SDL parses,
  query \<open>k\<close> fails evaluation and the queries before it evaluate, then the result built
  from the call is the failure branch holding the error of query \<open>k\<close>, and no success
  branch is delivered at all: there is no result mixing answers and errors.
\<close>

theorem failing_query_fails_batch:
  assumes "parse sdl = Inr schema" and "k < length queries"
    and "evaluate schema (queries ! k) = Inl e"
    and "\<forall>i<k. \<exists>r. evaluate schema (queries ! i) = Inr r"
  shows "outcomes (run (batchIntrospect parse evaluate) sdl queries) =
           (if sdl = [] then [Err empty_sdl_errors] else []) @ [Err (JArr [e])] \<and>
         (\<forall>v. Ok v \<notin> set (outcomes (run (batchIntrospect parse evaluate) sdl queries)))"
  using batchIntrospect_first_failure
    [where parse = parse and evaluate = evaluate and sdl = sdl and queries = queries, OF assms]
  by (simp add: run_outcomes)

theorem failing_query_fails_batch_witness:
  "outcomes (run (batchIntrospect sample_parse sample_evaluate) sample_sdl
       [query_type_query, ''{ hello'', mutation_type_query]) =
     [Err (JArr [syntax_error])] \<and>
   (\<forall>v. Ok v \<notin> set (outcomes (run (batchIntrospect sample_parse sample_evaluate) sample_sdl
       [query_type_query, ''{ hello'', mutation_type_query])))"
proof -
  let ?qs = "[query_type_query, ''{ hello'', mutation_type_query]"
  have p: "sample_parse sample_sdl = Inr ''Query''" by (simp add: sample_parse_def)
  have k: "(1::nat) < length ?qs" by simp
  have bad: "sample_evaluate ''Query'' (?qs ! 1) = Inl syntax_error"
    by (simp add: sample_evaluate_def query_type_query_def mutation_type_query_def)
  have good: "\<forall>i<(1::nat). \<exists>r. sample_evaluate ''Query'' (?qs ! i) = Inr r"
    by (simp add: sample_evaluate_def)
  have ne: "sample_sdl \<noteq> []" by (simp add: sample_sdl_def)
  from failing_query_fails_batch [where parse = sample_parse and evaluate = sample_evaluate
      and sdl = sample_sdl and queries = ?qs and k = 1, OF p k bad good] ne show ?thesis by simp
qed

text \<open>
  Claim C4: with the batch driver of the specification as the capability, whenever a
  success branch \<^verbatim>\<open>{ Ok: v }\<close> is delivered, the SDL parsed to a schema and \<open>v\<close> is an
  array with one entry per query, entry \<open>i\<close> being the evaluation of query \<open>i\<close> against
  that schema.
\<close>

theorem success_is_index_aligned:
  assumes "Ok v \<in> set (outcomes (run (batchIntrospect parse evaluate) sdl queries))"
  shows "\<exists>schema results. parse sdl = Inr schema \<and> v = JArr results \<and>
           length results = length queries \<and>
           (\<forall>i<length queries. evaluate schema (queries ! i) = Inr (results ! i))"
proof -
  from assms have "batchIntrospect parse evaluate sdl queries = Inr v"
    by (auto simp: run_outcomes split: if_splits sum.splits)
  then show ?thesis by (rule batchIntrospect_returns)
qed

theorem success_is_index_aligned_witness:
  "Ok (JArr [JObj [(''__schema'', JObj [(''mutationType'', JNull)])],
             JObj [(''__schema'', JObj [(''queryType'', JObj [(''name'', JStr ''Query'')])])]])
     \<in> set (outcomes (run (batchIntrospect sample_parse sample_evaluate) sample_sdl
               [mutation_type_query, query_type_query])) \<and>
   (\<exists>schema results. sample_parse sample_sdl = Inr schema \<and>
      JArr [JObj [(''__schema'', JObj [(''mutationType'', JNull)])],
            JObj [(''__schema'', JObj [(''queryType'', JObj [(''name'', JStr ''Query'')])])]]
        = JArr results \<and>
      length results = length [mutation_type_query, query_type_query] \<and>
      (\<forall>i<length [mutation_type_query, query_type_query].
         sample_evaluate schema ([mutation_type_query, query_type_query] ! i) = Inr (results ! i)))"
proof -
  have h: "Ok (JArr [JObj [(''__schema'', JObj [(''mutationType'', JNull)])],
             JObj [(''__schema'', JObj [(''queryType'', JObj [(''name'', JStr ''Query'')])])]])
     \<in> set (outcomes (run (batchIntrospect sample_parse sample_evaluate) sample_sdl
               [mutation_type_query, query_type_query]))"
    by (simp add: run_outcomes batchIntrospect_def run_batch_def sample_parse_def
          sample_evaluate_def sample_sdl_def query_type_query_def mutation_type_query_def)
  from success_is_index_aligned [where parse = sample_parse and evaluate = sample_evaluate, OF h] h show ?thesis by blast
qed




text \<open>
  An SDL of one space passes the precondition check: the capability is invoked with it and
  the only result delivered is built from the capability's answer.
\<close>

theorem whitespace_sdl_counterexample:
  "whitespace_only '' '' \<and>
   outcomes (run echo_engine '' '' []) = [Ok (JArr [])] \<and>
   invocations (run echo_engine '' '' []) = [('' '', [])]"
  by (simp add: run_outcomes run_invocations echo_engine_def whitespace_only_def
        whitespace_char_def)

text \<open>
  Claim C6, as amended: the precondition check rejects the empty SDL only. For
  \<^verbatim>\<open>sdl = ""\<close> the first result delivered is the precondition failure. Every
  non-empty SDL, whitespace-only ones included, is handed to the capability, and the one
  result delivered is the one built from the capability's answer.
\<close>

theorem guard_rejects_only_empty_sdl:
  "(sdl = [] \<longrightarrow> take 1 (outcomes (run cap sdl queries)) = [Err empty_sdl_errors]) \<and>
   (sdl \<noteq> [] \<longrightarrow>
      invocations (run cap sdl queries) = [(sdl, queries)] \<and>
      outcomes (run cap sdl queries) =
        [case cap sdl queries of Inl err \<Rightarrow> Err err | Inr introspected \<Rightarrow> Ok introspected])"
  by (simp add: run_outcomes run_invocations)

theorem guard_rejects_only_empty_sdl_witness:
  "take 1 (outcomes (run strict_engine '''' [query_type_query])) = [Err empty_sdl_errors] \<and>
   whitespace_only [CHR '' '', CHR 0x0A] \<and>
   invocations (run strict_engine [CHR '' '', CHR 0x0A] [query_type_query]) =
     [([CHR '' '', CHR 0x0A], [query_type_query])] \<and>
   outcomes (run strict_engine [CHR '' '', CHR 0x0A] [query_type_query]) =
     [Ok (JArr [JStr query_type_query])]"
proof -
  have w: "whitespace_only [CHR '' '', CHR 0x0A]"
    by (simp add: whitespace_only_def whitespace_char_def)
  have r: "strict_engine [CHR '' '', CHR 0x0A] [query_type_query] = Inr (JArr [JStr query_type_query])"
    by (simp add: strict_engine_def)
  from guard_rejects_only_empty_sdl [of "''''" strict_engine "[query_type_query]"]
    guard_rejects_only_empty_sdl [of "[CHR '' '', CHR 0x0A]" strict_engine "[query_type_query]"]
    w r
  show ?thesis by simp
qed

text \<open>
  A capability that throws an error object makes the script deliver that object itself
  under \<^verbatim>\<open>Err\<close>: not an array of error records.
\<close>

theorem raised_value_not_wrapped_counterexample:
  "outcomes (run faulty_engine sample_sdl [query_type_query]) =
     [Err (JObj [(''message'', JStr ''internal fault'')])] \<and>
   \<not> error_records (JObj [(''message'', JStr ''internal fault'')])"
  by (simp add: run_outcomes faulty_engine_def sample_sdl_def error_records_def)

text \<open>
  Claim C7, as amended: the script hands a thrown value on unchanged, so every failure
  branch delivered carries a non-empty array of error records, each with a string
  \<^verbatim>\<open>message\<close>, provided the value the capability throws (if it throws) is such an array.
\<close>

theorem failure_outcomes_carry_error_records:
  assumes "\<And>err. cap sdl queries = Inl err \<Longrightarrow> error_records err"
    and "Err v \<in> set (outcomes (run cap sdl queries))"
  shows "error_records v"
proof -
  have pre: "error_records empty_sdl_errors"
    by (simp add: error_records_def empty_sdl_errors_def has_message_def)
  from assms(2) have "v = empty_sdl_errors \<or> cap sdl queries = Inl v"
    by (auto simp: run_outcomes split: if_splits sum.splits)
  with pre assms(1) show ?thesis by blast
qed

theorem failure_outcomes_carry_error_records_witness:
  "Err (JArr [JObj [(''message'', JStr ''Syntax Error: Unexpected <EOF>.'')]])
     \<in> set (outcomes (run strict_engine '''' [])) \<and>
   error_records (JArr [JObj [(''message'', JStr ''Syntax Error: Unexpected <EOF>.'')]])"
proof -
  have h1: "\<And>err. strict_engine '''' [] = Inl err \<Longrightarrow> error_records err"
    by (auto simp: strict_engine_def error_records_def has_message_def)
  have h2: "Err (JArr [JObj [(''message'', JStr ''Syntax Error: Unexpected <EOF>.'')]])
     \<in> set (outcomes (run strict_engine '''' []))"
    by (simp add: run_outcomes strict_engine_def)
  from failure_outcomes_carry_error_records [where cap = strict_engine and sdl = "''''"
      and queries = "[]", OF h1 h2] h2 show ?thesis by simp
qed

text \<open>
  Claim C8: with the batch driver of the specification as the capability, if the SDL does
  not parse, the capability is invoked once, the engine's whole work is one parse of the
  SDL and no evaluation, and the result built from the call is the failure branch holding
  the single parse error. With the empty SDL the result of the precondition check
  precedes it.
\<close>

theorem parse_failure_short_circuits:
  "parse sdl = Inl parse_error \<Longrightarrow>
     invocations (run (batchIntrospect parse evaluate) sdl queries) = [(sdl, queries)] \<and>
     engine_work parse evaluate sdl queries = [Parsed sdl] \<and>
     outcomes (run (batchIntrospect parse evaluate) sdl queries) =
       (if sdl = [] then [Err empty_sdl_errors] else []) @ [Err (JArr [parse_error])]"
  by (simp add: run_invocations run_outcomes batchIntrospect_parse_failure
        engine_work_parse_failure)

theorem parse_failure_short_circuits_witness:
  "sample_parse ''type Query {'' = Inl syntax_error \<and>
   invocations (run (batchIntrospect sample_parse sample_evaluate) ''type Query {''
       [query_type_query, mutation_type_query]) =
     [(''type Query {'', [query_type_query, mutation_type_query])] \<and>
   engine_work sample_parse sample_evaluate ''type Query {''
       [query_type_query, mutation_type_query] = [Parsed ''type Query {''] \<and>
   outcomes (run (batchIntrospect sample_parse sample_evaluate) ''type Query {''
       [query_type_query, mutation_type_query]) = [Err (JArr [syntax_error])]"
proof -
  have h: "sample_parse ''type Query {'' = Inl syntax_error"
    by (simp add: sample_parse_def sample_sdl_def)
  from parse_failure_short_circuits [where parse = sample_parse and evaluate = sample_evaluate
      and sdl = "''type Query {''" and queries = "[query_type_query, mutation_type_query]", OF h] h show ?thesis by simp
qed

text \<open>
  Claim C9: with \<^verbatim>\<open>sdl = ""\<close> and a capability that returns \<open>v\<close> on it,
  \<^verbatim>\<open>done\<close> is called twice in one run: first with the empty-SDL failure, then with
  \<^verbatim>\<open>{ Ok: v }\<close>.
\<close>

theorem empty_sdl_done_twice:
  "cap '''' queries = Inr v \<Longrightarrow>
     outcomes (run cap '''' queries) = [Err empty_sdl_errors, Ok v] \<and>
     length (outcomes (run cap '''' queries)) = 2"
  by (simp add: run_outcomes)

theorem empty_sdl_done_twice_witness:
  "echo_engine '''' [query_type_query] = Inr (JArr [JStr query_type_query]) \<and>
   outcomes (run echo_engine '''' [query_type_query]) =
     [Err empty_sdl_errors, Ok (JArr [JStr query_type_query])] \<and>
   length (outcomes (run echo_engine '''' [query_type_query])) = 2"
proof -
  have h: "echo_engine '''' [query_type_query] = Inr (JArr [JStr query_type_query])"
    by (simp add: echo_engine_def)
  from empty_sdl_done_twice [where cap = echo_engine and queries = "[query_type_query]", OF h] h show ?thesis by simp
qed

text \<open>
  Claim C10: whenever the capability returns \<open>v\<close>, the result built from the call is
  exactly \<^verbatim>\<open>{ Ok: v }\<close>, with \<open>v\<close> untouched. With the empty SDL the result of the
  precondition check precedes it.
\<close>

theorem returned_value_passed_through:
  "cap sdl queries = Inr v \<Longrightarrow>
     outcomes (run cap sdl queries) =
       (if sdl = [] then [Err empty_sdl_errors] else []) @ [Ok v]"
  by (simp add: run_outcomes)

theorem returned_value_passed_through_witness:
  "echo_engine sample_sdl [query_type_query] = Inr (JArr [JStr query_type_query]) \<and>
   outcomes (run echo_engine sample_sdl [query_type_query]) =
     [Ok (JArr [JStr query_type_query])]"
proof -
  have h: "echo_engine sample_sdl [query_type_query] = Inr (JArr [JStr query_type_query])"
    by (simp add: echo_engine_def)
  have ne: "sample_sdl \<noteq> []" by (simp add: sample_sdl_def)
  from returned_value_passed_through [where cap = echo_engine and sdl = sample_sdl
      and queries = "[query_type_query]", OF h] h ne show ?thesis by simp
qed

end
